theory Spec2Isabelle
  imports Main "HOL-Library.Word"
begin

unbundle bit_operations_syntax

section \<open>Paths: the library functions the scanner and the uploader call\<close>

text \<open>
  Go strings are byte strings, modelled as \<open>string\<close>. The path separator on the target
  platform is the slash.
\<close>

definition sep :: char where
  "sep = CHR ''/''"

text \<open>\<open>strings.Split(s, "/")\<close>: always at least one field, empty fields kept.\<close>

fun split_on :: "char \<Rightarrow> string \<Rightarrow> string list" where
  "split_on c [] = [[]]"
| "split_on c (x # xs) =
     (if x = c then [] # split_on c xs
      else (case split_on c xs of
              [] \<Rightarrow> [[x]]
            | h # t \<Rightarrow> (x # h) # t))"

text \<open>\<open>strings.Join(xs, "/")\<close>.\<close>

fun join_on :: "char \<Rightarrow> string list \<Rightarrow> string" where
  "join_on c [] = []"
| "join_on c [x] = x"
| "join_on c (x # y # ys) = x @ [c] @ join_on c (y # ys)"

text \<open>\<open>strings.HasSuffix\<close>.\<close>

definition HasSuffix :: "string \<Rightarrow> string \<Rightarrow> bool" where
  "HasSuffix s suf \<longleftrightarrow>
     length suf \<le> length s \<and> drop (length s - length suf) s = suf"

text \<open>
  The element stack of \<open>filepath.Clean\<close>: empty elements and \<open>.\<close> are dropped, \<open>..\<close>
  removes the element before it; at the top of a rooted path \<open>..\<close> is dropped, at the
  top of a relative path it is kept. The accumulator holds the elements kept so far,
  last one first.
\<close>

fun clean_elems :: "bool \<Rightarrow> string list \<Rightarrow> string list \<Rightarrow> string list" where
  "clean_elems rooted [] acc = rev acc"
| "clean_elems rooted (s # ss) acc =
     (if s = [] \<or> s = ''.'' then clean_elems rooted ss acc
      else if s = ''..'' then
        (case acc of
           [] \<Rightarrow> if rooted then clean_elems rooted ss [] else clean_elems rooted ss [s]
         | a # as \<Rightarrow> if a = ''..'' then clean_elems rooted ss (s # acc)
                    else clean_elems rooted ss as)
      else clean_elems rooted ss (s # acc))"

definition is_rooted :: "string \<Rightarrow> bool" where
  "is_rooted p \<longleftrightarrow> (case p of [] \<Rightarrow> False | x # _ \<Rightarrow> x = sep)"

text \<open>A cleaned path as the pair of its rootedness and its elements.\<close>

definition path_elems :: "string \<Rightarrow> bool \<times> string list" where
  "path_elems p = (is_rooted p, clean_elems (is_rooted p) (split_on sep p) [])"

definition filepath_Clean :: "string \<Rightarrow> string" where
  "filepath_Clean p =
     (case path_elems p of
        (True, es) \<Rightarrow> sep # join_on sep es
      | (False, es) \<Rightarrow> if es = [] then ''.'' else join_on sep es)"

fun strip_common :: "string list \<Rightarrow> string list \<Rightarrow> string list \<times> string list" where
  "strip_common (b # bs) (t # ts) =
     (if b = t then strip_common bs ts else (b # bs, t # ts))"
| "strip_common bs ts = (bs, ts)"

datatype error =
    E_Rel string string
  | E_InvalidPathStructure string
  | E_FileNotAccessible string
  | E_Open string
  | E_FileInfo
  | E_RecheckFileInfo
  | E_SizeChanged
  | E_Copy
  | E_Finalize
  | E_UploadFailed error
  | E_Delete string
  | E_Walk string
  | E_Watch string

text \<open>
  \<open>filepath.Rel(basepath, targpath)\<close>: both paths are cleaned; equal paths give \<open>.\<close>; a
  rooted and a relative path cannot be related; otherwise the common leading elements
  are removed, each remaining element of the base becomes \<open>..\<close>, and the remaining
  elements of the target follow.
\<close>

definition filepath_Rel :: "string \<Rightarrow> string \<Rightarrow> error + string" where
  "filepath_Rel basepath targpath =
     (let (rb, bs) = path_elems basepath;
          (rt, ts) = path_elems targpath
      in if rb = rt \<and> bs = ts then Inr ''.''
         else if rb \<noteq> rt then Inl (E_Rel targpath basepath)
         else (case strip_common bs ts of
                 (bs', ts') \<Rightarrow>
                   (case bs' of
                      [] \<Rightarrow> Inr (join_on sep ts')
                    | b # _ \<Rightarrow>
                        if b = ''..'' then Inl (E_Rel targpath basepath)
                        else Inr (join_on sep (replicate (length bs') ''..'' @ ts')))))"

text \<open>
  \<open>filepath.Base\<close>: the last element of the path, trailing slashes removed first; \<open>.\<close> for
  the empty path and a single slash for a path of slashes only.
\<close>

definition filepath_Base :: "string \<Rightarrow> string" where
  "filepath_Base p =
     (if p = [] then ''.''
      else (let q = rev (dropWhile (\<lambda>x. x = sep) (rev p));
                r = last (split_on sep q)
            in if r = [] then [sep] else r))"

section \<open>The world the sidecar runs in\<close>

text \<open>
  A local entry is a regular file with its bytes or a directory. The remote bucket maps
  an object path to the content type and the bytes of the committed object: an object
  becomes visible when its writer is closed successfully, and a write to an existing
  object path replaces the object.
\<close>

datatype entry = RegFile string | Directory

datatype action =
    A_Sleep nat
  | A_Stat string
  | A_Open string
  | A_FStat string
  | A_NewWriter string
  | A_Copy string nat
  | A_CloseWriter string bool
  | A_Remove string bool
  | A_WatchAdd string bool
  | A_Log string string
  | A_LogErr string string error

record world =
  files :: "string \<rightharpoonup> entry"
  objects :: "string \<rightharpoonup> string \<times> string"
  watched :: "string set"
  clock :: nat
  trace :: "action list"

text \<open>
  What the sidecar does not control: which system calls fail, what the producer does to
  the bytes of a file while the sidecar sleeps (at a given time, for a given duration,
  on a given path), the size the file system reports for a directory, after how many
  bytes a copy breaks off, whether closing the remote writer fails.
\<close>

record env =
  stat_fails :: "string \<Rightarrow> bool"
  open_fails :: "string \<Rightarrow> bool"
  fstat1_fails :: bool
  fstat2_fails :: bool
  producer :: "nat \<Rightarrow> nat \<Rightarrow> string \<Rightarrow> string \<Rightarrow> string"
  dir_size :: nat
  copy_stops :: "nat option"
  close_fails :: bool
  remove_fails :: bool
  add_fails :: "string \<Rightarrow> bool"

definition did :: "action list \<Rightarrow> world \<Rightarrow> world" where
  "did as w = w\<lparr>trace := trace w @ as\<rparr>"

definition size_of :: "env \<Rightarrow> entry \<Rightarrow> nat" where
  "size_of e ent = (case ent of RegFile c \<Rightarrow> length c | Directory \<Rightarrow> dir_size e)"

definition grow :: "env \<Rightarrow> nat \<Rightarrow> nat \<Rightarrow> string \<Rightarrow> entry \<Rightarrow> entry" where
  "grow e t d p ent =
     (case ent of RegFile c \<Rightarrow> RegFile (producer e t d p c) | Directory \<Rightarrow> Directory)"

text \<open>\<open>time.Sleep(d * time.Second)\<close>: the clock advances and the producer acts.\<close>

definition sleep :: "env \<Rightarrow> nat \<Rightarrow> world \<Rightarrow> world" where
  "sleep e d w =
     w\<lparr>files := (\<lambda>p. map_option (grow e (clock w) d p) (files w p)),
       clock := clock w + d,
       trace := trace w @ [A_Sleep d]\<rparr>"

section \<open>uploader/gcs.go\<close>

definition octet_stream :: string where
  "octet_stream = ''application/octet-stream''"

text \<open>
  \<open>io.Copy(writer, file)\<close> followed by the calls of \<open>writer.Close()\<close>. A directory
  cannot be read, so its copy breaks off with no byte written. When the copy breaks
  off, the writer is closed all the same and the result of that call is dropped: a
  close that succeeds commits the bytes written so far.
\<close>

definition stream_and_close ::
  "env \<Rightarrow> world \<Rightarrow> string \<Rightarrow> entry \<Rightarrow> (error + unit) \<times> world" where
  "stream_and_close e w objectPath ent =
     (let stop = (case ent of
                    Directory \<Rightarrow> Some 0
                  | RegFile c \<Rightarrow> map_option (\<lambda>n. min n (length c)) (copy_stops e));
          c = (case ent of Directory \<Rightarrow> [] | RegFile c \<Rightarrow> c)
      in case stop of
           Some k \<Rightarrow>
             (Inl E_Copy,
              (did [A_Copy objectPath k, A_CloseWriter objectPath (\<not> close_fails e)] w)
                \<lparr>objects := (if close_fails e then objects w
                             else (objects w)(objectPath \<mapsto> (octet_stream, take k c)))\<rparr>)
         | None \<Rightarrow>
             if close_fails e
             then (Inl E_Finalize,
                   did [A_Copy objectPath (length c), A_CloseWriter objectPath False] w)
             else (Inr (),
                   (did [A_Copy objectPath (length c), A_CloseWriter objectPath True,
                         A_Log ''Successfully uploaded file to GCS'' objectPath] w)
                     \<lparr>objects := (objects w)(objectPath \<mapsto> (octet_stream, c))\<rparr>))"

definition Upload :: "env \<Rightarrow> world \<Rightarrow> string \<Rightarrow> string \<Rightarrow> (error + unit) \<times> world" where
  "Upload e w localPath podName =
     (let w0 = did [A_Open localPath] w
      in case files w localPath of
           None \<Rightarrow> (Inl (E_Open localPath), w0)
         | Some fileInfo \<Rightarrow>
             if open_fails e localPath then (Inl (E_Open localPath), w0)
             else
               (let w1 = did [A_FStat localPath] w0
                in if fstat1_fails e then (Inl E_FileInfo, w1)
                   else
                     (let w2 = did [A_FStat localPath] (sleep e 2 w1)
                      in if fstat2_fails e then (Inl E_RecheckFileInfo, w2)
                         else
                           (case files w2 localPath of
                              None \<Rightarrow> (Inl E_RecheckFileInfo, w2)
                            | Some newInfo \<Rightarrow>
                                if size_of e newInfo \<noteq> size_of e fileInfo
                                then (Inl E_SizeChanged, w2)
                                else
                                  (let filename = filepath_Base localPath;
                                       objectPath = podName @ [sep] @ filename;
                                       w3 = did [A_NewWriter objectPath,
                                                 A_Log ''Uploading file to GCS'' localPath] w2
                                   in stream_and_close e w3 objectPath newInfo)))))"

section \<open>daemon/scanner.go\<close>

definition rootProfileDir :: string where
  "rootProfileDir = ''/tmp/jfr''"

text \<open>\<open>os.Remove\<close>: fails on a missing path, or when the system refuses.\<close>

definition os_Remove :: "env \<Rightarrow> world \<Rightarrow> string \<Rightarrow> bool \<times> world" where
  "os_Remove e w p =
     (if files w p = None \<or> remove_fails e
      then (False, did [A_Remove p False] w)
      else (True, (did [A_Remove p True] w)\<lparr>files := (files w)(p := None)\<rparr>))"

definition processFile :: "env \<Rightarrow> world \<Rightarrow> string \<Rightarrow> (error + unit) \<times> world" where
  "processFile e w filePath =
     (case filepath_Rel rootProfileDir filePath of
        Inl err \<Rightarrow> (Inl err, w)
      | Inr relativePath \<Rightarrow>
          (let parts = split_on sep relativePath
           in if length parts < 2 then (Inl (E_InvalidPathStructure filePath), w)
              else
                (let podName = hd parts;
                     w1 = did [A_Stat filePath] w
                 in case files w filePath of
                      None \<Rightarrow> (Inl (E_FileNotAccessible filePath), w1)
                    | Some fileInfo \<Rightarrow>
                        if stat_fails e filePath then (Inl (E_FileNotAccessible filePath), w1)
                        else if size_of e fileInfo = 0
                        then (Inr (), did [A_Log ''Skipping empty file: %s'' filePath] w1)
                        else
                          (let w2 = did [A_Log ''Uploading file: %s'' filePath] w1
                           in case Upload e w2 filePath podName of
                                (Inl err, w3) \<Rightarrow> (Inl (E_UploadFailed err), w3)
                              | (Inr _, w3) \<Rightarrow>
                                  (let w4 = did [A_Log ''Upload successful. Deleting local file: %s''
                                                   filePath] w3
                                   in case os_Remove e w4 filePath of
                                        (False, w5) \<Rightarrow> (Inl (E_Delete filePath), w5)
                                      | (True, w5) \<Rightarrow>
                                          (Inr (),
                                           did [A_Log ''Successfully processed and deleted: %s''
                                                  filePath] w5))))))"

text \<open>The operations of a notification, as the bits of \<open>fsnotify.Op\<close>.\<close>

definition op_Create :: "32 word" where "op_Create = 1"
definition op_Write :: "32 word" where "op_Write = 2"
definition op_Remove :: "32 word" where "op_Remove = 4"
definition op_Rename :: "32 word" where "op_Rename = 8"
definition op_Chmod :: "32 word" where "op_Chmod = 16"

record event =
  Name :: string
  Op :: "32 word"

definition handleFileEvent :: "env \<Rightarrow> world \<Rightarrow> event \<Rightarrow> world" where
  "handleFileEvent e w ev =
     (if \<not> HasSuffix (Name ev) ''.jfr'' then w
      else if Op ev AND op_Remove = op_Remove
      then did [A_Log ''Detected file Removed: %s'' (Name ev)] w
      else if Op ev AND op_Create = op_Create \<or> Op ev AND op_Write = op_Write
      then
        (let w1 = sleep e 5 (did [A_Log ''Detected new/modified file: %s'' (Name ev)] w)
         in case processFile e w1 (Name ev) of
              (Inl err, w2) \<Rightarrow> did [A_LogErr ''Failed to process file %s: %v'' (Name ev) err] w2
            | (Inr _, w2) \<Rightarrow> w2)
      else w)"

text \<open>
  The directory tree as \<open>filepath.Walk\<close> sees it: a file, a directory with its entries
  in the order they are read (by name), an entry whose \<open>lstat\<close> fails, a directory
  whose listing fails. A visit is the path, whether it is a directory, and whether the
  walk hands an error to the callback there.
\<close>

datatype fsnode =
    FileN
  | DirN "(string \<times> fsnode) list"
  | BadN
  | UnreadableDirN

fun walk :: "string \<Rightarrow> fsnode \<Rightarrow> (string \<times> bool \<times> bool) list"
  and walks :: "string \<Rightarrow> (string \<times> fsnode) list \<Rightarrow> (string \<times> bool \<times> bool) list" where
  "walk p FileN = [(p, False, False)]"
| "walk p BadN = [(p, False, True)]"
| "walk p UnreadableDirN = [(p, True, False), (p, True, True)]"
| "walk p (DirN cs) = (p, True, False) # walks p cs"
| "walks p [] = []"
| "walks p ((n, c) # cs) = walk (p @ [sep] @ n) c @ walks p cs"

text \<open>The callback of \<open>watchDirectoryRecursive\<close>, run over the visits until one fails.\<close>

fun watch_visits ::
  "env \<Rightarrow> (string \<times> bool \<times> bool) list \<Rightarrow> world \<Rightarrow> (error + unit) \<times> world" where
  "watch_visits e [] w = (Inr (), w)"
| "watch_visits e ((p, isDir, err) # vs) w =
     (if err then (Inl (E_Walk p), w)
      else if isDir then
        (let w1 = did [A_Log ''Watching directory: %s'' p] w
         in if add_fails e p then (Inl (E_Watch p), did [A_WatchAdd p False] w1)
            else watch_visits e vs
                   ((did [A_WatchAdd p True] w1)\<lparr>watched := insert p (watched w1)\<rparr>))
      else watch_visits e vs w)"

definition watchDirectoryRecursive ::
  "env \<Rightarrow> world \<Rightarrow> string \<Rightarrow> fsnode \<Rightarrow> (error + unit) \<times> world" where
  "watchDirectoryRecursive e w root tree = watch_visits e (walk root tree) w"

section \<open>Vocabulary of the statements\<close>

text \<open>
  A plain path element is a name a directory entry can have and that cleaning a path
  leaves alone. \<open>under_root segs\<close> is the path of the entry reached from the watched
  root through the elements \<open>segs\<close>.
\<close>

definition plain_elem :: "string \<Rightarrow> bool" where
  "plain_elem s \<longleftrightarrow> s \<noteq> [] \<and> sep \<notin> set s \<and> s \<noteq> ''.'' \<and> s \<noteq> ''..''"

definition under_root :: "string list \<Rightarrow> string" where
  "under_root segs = rootProfileDir @ concat (map (\<lambda>s. sep # s) segs)"

text \<open>The actions a run has added to the trace.\<close>

definition fresh :: "world \<Rightarrow> world \<Rightarrow> action list" where
  "fresh w w' = drop (length (trace w)) (trace w')"

text \<open>Concrete environments and worlds for the examples.\<close>

definition env_ok :: env where
  "env_ok = \<lparr>stat_fails = (\<lambda>_. False), open_fails = (\<lambda>_. False),
     fstat1_fails = False, fstat2_fails = False, producer = (\<lambda>t d p c. c),
     dir_size = 4096, copy_stops = None, close_fails = False, remove_fails = False,
     add_fails = (\<lambda>_. False)\<rparr>"

definition env_growing :: env where
  "env_growing = env_ok\<lparr>producer := (\<lambda>t d p c. c @ ''x'')\<rparr>"

definition world_of :: "(string \<rightharpoonup> entry) \<Rightarrow> world" where
  "world_of fs = \<lparr>files = fs, objects = Map.empty, watched = {}, clock = 0, trace = []\<rparr>"

text \<open>An environment in which no system call and no remote call fails for a path.\<close>

definition fault_free :: "env \<Rightarrow> string \<Rightarrow> bool" where
  "fault_free e p \<longleftrightarrow>
     \<not> stat_fails e p \<and> \<not> open_fails e p \<and> \<not> fstat1_fails e \<and> \<not> fstat2_fails e \<and>
     copy_stops e = None \<and> \<not> close_fails e \<and> \<not> remove_fails e"

definition deep_a :: string where
  "deep_a = ''/tmp/jfr/pod-7/a/run1.jfr''"

definition deep_b :: string where
  "deep_b = ''/tmp/jfr/pod-7/b/run1.jfr''"

definition pod9 :: string where
  "pod9 = ''/tmp/jfr/pod-9''"

definition run1 :: string where
  "run1 = ''/tmp/jfr/pod-7/run1.jfr''"

section \<open>Paths under the watched root\<close>

lemma split_on_nonempty: "split_on c s \<noteq> []"
  by (induction s) (auto split: list.splits)

lemma split_on_plain: "c \<notin> set s \<Longrightarrow> split_on c s = [s]"
  by (induction s) auto

lemma split_on_append: "c \<notin> set s \<Longrightarrow> split_on c (s @ c # rest) = s # split_on c rest"
  by (induction s) auto

lemma split_on_segments:
  "c \<notin> set s \<Longrightarrow> \<forall>x\<in>set ss. c \<notin> set x \<Longrightarrow>
   split_on c (s @ concat (map (\<lambda>x. c # x) ss)) = s # ss"
proof (induction ss arbitrary: s)
  case Nil
  then show ?case by (simp add: split_on_plain)
next
  case (Cons a ss)
  have "split_on c (s @ c # (a @ concat (map (\<lambda>x. c # x) ss)))
        = s # split_on c (a @ concat (map (\<lambda>x. c # x) ss))"
    using Cons.prems(1) by (rule split_on_append)
  also have "split_on c (a @ concat (map (\<lambda>x. c # x) ss)) = a # ss"
    using Cons.prems(2) by (intro Cons.IH) auto
  finally show ?case by simp
qed

lemma join_on_concat:
  "join_on c (s # ss) = s @ concat (map (\<lambda>x. c # x) ss)"
  by (induction ss arbitrary: s) auto

lemma split_on_join:
  "segs \<noteq> [] \<Longrightarrow> \<forall>x\<in>set segs. c \<notin> set x \<Longrightarrow> split_on c (join_on c segs) = segs"
  by (cases segs) (auto simp: join_on_concat split_on_segments)

lemma clean_elems_plain:
  "\<forall>x\<in>set segs. plain_elem x \<Longrightarrow> clean_elems r segs acc = rev acc @ segs"
  by (induction segs arbitrary: acc) (auto simp: plain_elem_def)

lemma under_root_concat:
  "under_root segs = [] @ concat (map (\<lambda>x. sep # x) (''tmp'' # ''jfr'' # segs))"
  by (simp add: under_root_def rootProfileDir_def sep_def)

lemma split_on_under_root:
  assumes "\<forall>x\<in>set segs. plain_elem x"
  shows "split_on sep (under_root segs) = [] # ''tmp'' # ''jfr'' # segs"
  unfolding under_root_concat
  by (rule split_on_segments) (use assms in \<open>auto simp: plain_elem_def sep_def\<close>)

lemma is_rooted_under_root: "is_rooted (under_root segs)"
  by (simp add: is_rooted_def under_root_def rootProfileDir_def sep_def)

lemma path_elems_under_root:
  assumes "\<forall>x\<in>set segs. plain_elem x"
  shows "path_elems (under_root segs) = (True, ''tmp'' # ''jfr'' # segs)"
proof -
  have "\<forall>x\<in>set (''tmp'' # ''jfr'' # segs). plain_elem x"
    using assms by (simp add: plain_elem_def sep_def)
  then have "clean_elems True (''tmp'' # ''jfr'' # segs) [] = ''tmp'' # ''jfr'' # segs"
    by (simp only: clean_elems_plain rev.simps append_Nil)
  then show ?thesis
    by (simp add: path_elems_def is_rooted_under_root split_on_under_root [OF assms])
qed

lemma path_elems_root: "path_elems rootProfileDir = (True, [''tmp'', ''jfr''])"
  using path_elems_under_root [of "[]"] by (simp add: under_root_def)

lemma strip_common_prefix: "strip_common bs (bs @ ts) = ([], ts)"
  by (induction bs) auto

lemma filepath_Rel_under_root:
  assumes "\<forall>x\<in>set segs. plain_elem x"
  shows "filepath_Rel rootProfileDir (under_root segs)
         = Inr (if segs = [] then ''.'' else join_on sep segs)"
  using strip_common_prefix [of "[''tmp'', ''jfr'']" segs]
  by (simp add: filepath_Rel_def path_elems_root path_elems_under_root [OF assms])

lemma parts_under_root:
  assumes "\<forall>x\<in>set segs. plain_elem x" "segs \<noteq> []"
  shows "split_on sep (join_on sep segs) = segs"
  using assms by (intro split_on_join) (auto simp: plain_elem_def)

lemma filepath_Base_under_root:
  assumes "\<forall>x\<in>set segs. plain_elem x" "segs \<noteq> []"
  shows "filepath_Base (under_root segs) = last segs"
proof -
  let ?p = "under_root segs"
  have ne: "?p \<noteq> []" by (simp add: under_root_def rootProfileDir_def)
  have lastne: "last segs \<noteq> []" and nosep: "sep \<notin> set (last segs)"
    using assms by (auto simp: plain_elem_def)
  have "?p = (rootProfileDir @ concat (map (\<lambda>s. sep # s) (butlast segs))) @ sep # last segs"
    using assms(2) unfolding under_root_def
    by (subst (1) append_butlast_last_id [symmetric, of segs]) (simp_all del: append_butlast_last_id)
  then have "last ?p = last (last segs)"
    using lastne by simp
  then have "last ?p \<noteq> sep"
    using lastne nosep by (metis last_in_set)
  then have "hd (rev ?p) \<noteq> sep"
    using ne by (simp add: hd_rev)
  then have "dropWhile (\<lambda>x. x = sep) (rev ?p) = rev ?p"
    using ne by (cases "rev ?p") auto
  then show ?thesis
    using ne assms lastne by (simp add: filepath_Base_def split_on_under_root)
qed

section \<open>Frame lemmas\<close>

lemma files_did [simp]: "files (did as w) = files w"
  and objects_did [simp]: "objects (did as w) = objects w"
  and watched_did [simp]: "watched (did as w) = watched w"
  and clock_did [simp]: "clock (did as w) = clock w"
  and trace_did [simp]: "trace (did as w) = trace w @ as"
  by (simp_all add: did_def)

lemma objects_sleep [simp]: "objects (sleep e d w) = objects w"
  and watched_sleep [simp]: "watched (sleep e d w) = watched w"
  and clock_sleep [simp]: "clock (sleep e d w) = clock w + d"
  and trace_sleep [simp]: "trace (sleep e d w) = trace w @ [A_Sleep d]"
  and files_sleep: "files (sleep e d w) p = map_option (grow e (clock w) d p) (files w p)"
  by (simp_all add: sleep_def)

lemma sleep_did: "sleep e d (did as w) = (sleep e d w)\<lparr>trace := trace w @ as @ [A_Sleep d]\<rparr>"
  by (simp add: sleep_def did_def)

lemma did_did: "did bs (did as w) = did (as @ bs) w"
  by (simp add: did_def)

lemma Upload_effects:
  assumes "Upload e w p pod = (r, w')"
  shows "\<exists>new. trace w' = trace w @ new \<and> (\<forall>q b. A_Remove q b \<notin> set new) \<and>
           (r = Inr () \<longrightarrow> A_CloseWriter (pod @ [sep] @ filepath_Base p) True \<in> set new)"
    and "(files w' q = None) = (files w q = None)"
    and "watched w' = watched w"
  using assms
  by (auto simp: Upload_def stream_and_close_def Let_def files_sleep
           split: option.splits if_splits entry.splits)

section \<open>Examples: one artifact under the watched root\<close>

lemma under_root_run1: "under_root [''pod-7'', ''run1.jfr''] = run1"
  by (simp add: under_root_def rootProfileDir_def sep_def run1_def)

lemma plain_run1: "\<forall>x\<in>set [''pod-7'', ''run1.jfr'']. plain_elem x"
  by (simp add: plain_elem_def sep_def)

lemma rel_run1: "filepath_Rel rootProfileDir run1 = Inr ''pod-7/run1.jfr''"
  using filepath_Rel_under_root [OF plain_run1] by (simp add: under_root_run1 sep_def)

lemma parts_run1: "split_on sep ''pod-7/run1.jfr'' = [''pod-7'', ''run1.jfr'']"
  by (simp add: sep_def)

lemma base_run1: "filepath_Base run1 = ''run1.jfr''"
  using filepath_Base_under_root [OF plain_run1] by (simp add: under_root_run1)

lemma files_world_of [simp]: "files (world_of fs) = fs"
  and objects_world_of [simp]: "objects (world_of fs) = Map.empty"
  and watched_world_of [simp]: "watched (world_of fs) = {}"
  and clock_world_of [simp]: "clock (world_of fs) = 0"
  and trace_world_of [simp]: "trace (world_of fs) = []"
  by (simp_all add: world_of_def)

section \<open>The uploader\<close>

text \<open>
  Claim C4. Upload returns success only after the remote writer has been closed
  successfully: then nothing broke the copy, the close did not fail, the trace of the
  call holds the successful close, and the object at \<open>podName/filename\<close> carries the
  bytes of the local file with the binary content type. Whenever the copy breaks off or
  the close fails, Upload returns an error. Whatever the outcome, Upload leaves the
  local files untouched: they are the files of the world it was called in, changed at
  most by what the producer did during the two seconds Upload slept; no path appears or
  disappears, and the trace of the call holds no removal.
\<close>

theorem Upload_succeeds_only_when_finalized:
  assumes "Upload e w p pod = (r, w')"
  shows "(r = Inr () \<longrightarrow>
            \<not> close_fails e \<and> copy_stops e = None \<and>
            (\<exists>c. files w' p = Some (RegFile c) \<and>
                 objects w' (pod @ [sep] @ filepath_Base p) = Some (octet_stream, c) \<and>
                 A_CloseWriter (pod @ [sep] @ filepath_Base p) True \<in> set (fresh w w')))
       \<and> (close_fails e \<or> copy_stops e \<noteq> None \<longrightarrow> (\<exists>err. r = Inl err))
       \<and> (\<forall>q. (files w' q = None) = (files w q = None))
       \<and> (\<forall>q b. A_Remove q b \<notin> set (fresh w w'))
       \<and> (files w' = files w \<or> files w' = files (sleep e 2 w))
       \<and> (r = Inr () \<longrightarrow>
            files w' = files (sleep e 2 w) \<and>
            (\<exists>c. files (sleep e 2 w) p = Some (RegFile c) \<and>
                 objects w' = (objects w)(pod @ [sep] @ filepath_Base p \<mapsto> (octet_stream, c)) \<and>
                 fresh w w' =
                   [A_Open p, A_FStat p, A_Sleep 2, A_FStat p,
                    A_NewWriter (pod @ [sep] @ filepath_Base p),
                    A_Log ''Uploading file to GCS'' p,
                    A_Copy (pod @ [sep] @ filepath_Base p) (length c),
                    A_CloseWriter (pod @ [sep] @ filepath_Base p) True,
                    A_Log ''Successfully uploaded file to GCS''
                      (pod @ [sep] @ filepath_Base p)]))"
proof -
  have slept: "\<And>as bs. files (did bs (sleep e 2 (did as w))) = files (sleep e 2 w)"
    by (simp add: sleep_def did_def)
  show ?thesis
    using assms
    by (auto simp: Upload_def stream_and_close_def Let_def fresh_def files_sleep slept
             split: option.splits if_splits entry.splits)
qed

theorem Upload_succeeds_only_when_finalized_witness:
  "fst (Upload env_ok (world_of [run1 \<mapsto> RegFile ''JFR'']) run1 ''pod-7'') = Inr ()
   \<and> \<not> close_fails env_ok
   \<and> objects (snd (Upload env_ok (world_of [run1 \<mapsto> RegFile ''JFR'']) run1 ''pod-7''))
        ''pod-7/run1.jfr'' = Some (octet_stream, ''JFR'')
   \<and> fst (Upload (env_ok\<lparr>close_fails := True\<rparr>) (world_of [run1 \<mapsto> RegFile ''JFR''])
            run1 ''pod-7'') = Inl E_Finalize
   \<and> files (snd (Upload (env_ok\<lparr>close_fails := True\<rparr>) (world_of [run1 \<mapsto> RegFile ''JFR''])
            run1 ''pod-7'')) run1 = Some (RegFile ''JFR'')"
proof -
  let ?w = "world_of [run1 \<mapsto> RegFile ''JFR'']"
  let ?bad = "env_ok\<lparr>close_fails := True\<rparr>"
  let ?u = "Upload env_ok ?w run1 ''pod-7''"
  let ?v = "Upload ?bad ?w run1 ''pod-7''"
  have ok: "fst ?u = Inr ()"
    by (simp add: Upload_def stream_and_close_def Let_def files_sleep env_ok_def
                  size_of_def grow_def)
  have fl: "files (snd ?u) run1 = Some (RegFile ''JFR'')"
    by (simp add: Upload_def stream_and_close_def Let_def files_sleep env_ok_def
                  size_of_def grow_def)
  have pr: "?u = (fst ?u, snd ?u)" and prv: "?v = (fst ?v, snd ?v)"
    by simp_all
  from Upload_succeeds_only_when_finalized [OF pr] ok fl
  have "\<not> close_fails env_ok \<and> objects (snd ?u) ''pod-7/run1.jfr'' = Some (octet_stream, ''JFR'')"
    by (auto simp: base_run1 sep_def)
  moreover have "fst ?v = Inl E_Finalize"
    by (simp add: Upload_def stream_and_close_def Let_def files_sleep env_ok_def
                  size_of_def grow_def)
  moreover have "files ?w run1 = Some (RegFile ''JFR'')"
      "files (sleep ?bad 2 ?w) run1 = Some (RegFile ''JFR'')"
    by (simp_all add: files_sleep grow_def env_ok_def)
  with Upload_succeeds_only_when_finalized [OF prv]
  have "files (snd ?v) run1 = Some (RegFile ''JFR'')"
    by metis
  ultimately show ?thesis using ok by simp
qed

text \<open>
  Claim C5. Before any byte is streamed, Upload reads the size of the opened file,
  sleeps two seconds and reads the size again. When the two sizes differ, the call ends
  there with the size-changed error: the trace of the call is open, size read, sleep,
  size read, with no remote writer created, and the remote objects are as before.
\<close>

theorem drifting_size_aborts_upload:
  assumes "files w p = Some a" and "\<not> open_fails e p"
    and "\<not> fstat1_fails e" and "\<not> fstat2_fails e"
    and "size_of e (grow e (clock w) 2 p a) \<noteq> size_of e a"
  shows "Upload e w p pod
           = (Inl E_SizeChanged, did [A_FStat p] (sleep e 2 (did [A_Open p, A_FStat p] w)))
       \<and> objects (snd (Upload e w p pod)) = objects w
       \<and> fresh w (snd (Upload e w p pod)) = [A_Open p, A_FStat p, A_Sleep 2, A_FStat p]"
  using assms
  by (simp add: Upload_def Let_def files_sleep did_did fresh_def)

theorem drifting_size_aborts_upload_witness:
  "fst (Upload env_growing (world_of [run1 \<mapsto> RegFile ''JFR'']) run1 ''pod-7'') = Inl E_SizeChanged
   \<and> objects (snd (Upload env_growing (world_of [run1 \<mapsto> RegFile ''JFR'']) run1 ''pod-7''))
       = Map.empty
   \<and> fresh (world_of [run1 \<mapsto> RegFile ''JFR''])
        (snd (Upload env_growing (world_of [run1 \<mapsto> RegFile ''JFR'']) run1 ''pod-7''))
       = [A_Open run1, A_FStat run1, A_Sleep 2, A_FStat run1]"
proof -
  let ?w = "world_of [run1 \<mapsto> RegFile ''JFR'']"
  have drift: "size_of env_growing (grow env_growing (clock ?w) 2 run1 (RegFile ''JFR''))
                 \<noteq> size_of env_growing (RegFile ''JFR'')"
    by (simp add: env_growing_def env_ok_def size_of_def grow_def)
  have quiet: "\<not> open_fails env_growing run1" "\<not> fstat1_fails env_growing"
      "\<not> fstat2_fails env_growing"
    by (simp_all add: env_growing_def env_ok_def)
  have there: "files ?w run1 = Some (RegFile ''JFR'')"
    by simp
  from drifting_size_aborts_upload [OF there quiet drift, of "''pod-7''"]
  show ?thesis by (simp add: fresh_def)
qed

section \<open>processFile\<close>

text \<open>
  Claim C7. A path with fewer than two elements below the watched root, the root
  itself or an entry directly under it, is a structural error: processFile returns the
  invalid-path-structure error and leaves the world as it was, so nothing is read,
  uploaded or removed.
\<close>

theorem shallow_path_is_structural_error:
  assumes "\<forall>x\<in>set segs. plain_elem x" and "length segs < 2"
  shows "processFile e w (under_root segs)
         = (Inl (E_InvalidPathStructure (under_root segs)), w)"
proof (cases segs)
  case Nil
  then show ?thesis
    using assms by (simp add: processFile_def filepath_Rel_under_root sep_def)
next
  case (Cons s ss)
  with assms have "ss = []" by simp
  with Cons assms show ?thesis
    by (simp add: processFile_def filepath_Rel_under_root split_on_plain plain_elem_def)
qed

theorem shallow_path_is_structural_error_witness:
  "processFile env_ok (world_of [''/tmp/jfr/run1.jfr'' \<mapsto> RegFile ''JFR'']) ''/tmp/jfr/run1.jfr''
   = (Inl (E_InvalidPathStructure ''/tmp/jfr/run1.jfr''),
      world_of [''/tmp/jfr/run1.jfr'' \<mapsto> RegFile ''JFR''])"
proof -
  have p: "under_root [''run1.jfr''] = ''/tmp/jfr/run1.jfr''"
    by (simp add: under_root_def rootProfileDir_def sep_def)
  have plain: "\<forall>x\<in>set [''run1.jfr'']. plain_elem x"
    by (simp add: plain_elem_def sep_def)
  have short: "length [''run1.jfr''] < 2"
    by simp
  from shallow_path_is_structural_error [OF plain short] show ?thesis
    by (simp only: p)
qed

text \<open>
  Claim C8. A file of size zero is skipped without error: processFile reads its size,
  logs the skip and returns success; the local files and the remote objects are as
  before, and the trace of the call holds no upload and no removal.
\<close>

theorem empty_file_is_skipped:
  assumes "\<forall>x\<in>set segs. plain_elem x" and "2 \<le> length segs"
    and "files w (under_root segs) = Some (RegFile [])"
    and "\<not> stat_fails e (under_root segs)"
  shows "processFile e w (under_root segs)
         = (Inr (), did [A_Stat (under_root segs),
                         A_Log ''Skipping empty file: %s'' (under_root segs)] w)"
proof -
  have ne: "segs \<noteq> []" using assms(2) by auto
  show ?thesis
    using assms ne
    by (simp add: processFile_def filepath_Rel_under_root parts_under_root size_of_def did_def)
qed

theorem empty_file_is_skipped_witness:
  "processFile env_ok (world_of [run1 \<mapsto> RegFile []]) run1
     = (Inr (), did [A_Stat run1, A_Log ''Skipping empty file: %s'' run1]
                  (world_of [run1 \<mapsto> RegFile []]))
   \<and> files (snd (processFile env_ok (world_of [run1 \<mapsto> RegFile []]) run1)) run1
       = Some (RegFile [])
   \<and> objects (snd (processFile env_ok (world_of [run1 \<mapsto> RegFile []]) run1)) = Map.empty"
proof -
  have long: "2 \<le> length [''pod-7'', ''run1.jfr'']"
    by simp
  have there: "files (world_of [run1 \<mapsto> RegFile []]) (under_root [''pod-7'', ''run1.jfr''])
                 = Some (RegFile [])"
    by (simp add: under_root_run1)
  have quiet: "\<not> stat_fails env_ok (under_root [''pod-7'', ''run1.jfr''])"
    by (simp add: env_ok_def)
  from empty_file_is_skipped [OF plain_run1 long there quiet] show ?thesis
    by (simp add: under_root_run1)
qed

text \<open>
  Claim C1. processFile removes the local file only after the Upload of this very run
  has returned success. Whenever the file is gone after the call, or the call has
  attempted any removal at all, every stage before it has passed: the path is
  well-formed, the size read succeeded on a non-empty file, and the call
  \<open>Upload(ctx, filePath, podName)\<close> made by this run, in the world this run handed to
  it, returned success after closing the remote writer successfully; the removal is the
  next action after that upload, and the file removed is \<open>filePath\<close>. When that Upload
  returns an error, or processFile returns an error from whatever stage, the file is
  still there and no successful removal is in the trace. No other path is ever removed.
\<close>

theorem processFile_deletes_only_after_upload_success:
  assumes "processFile e w p = (r, w')" and "files w p \<noteq> None"
  shows "(files w' p = None \<longrightarrow>
            r = Inr () \<and>
            (\<exists>pod w2 w3 pre. Upload e w2 p pod = (Inr (), w3) \<and>
               A_CloseWriter (pod @ [sep] @ filepath_Base p) True \<in> set pre \<and>
               fresh w w' = pre @ [A_Log ''Upload successful. Deleting local file: %s'' p,
                                   A_Remove p True,
                                   A_Log ''Successfully processed and deleted: %s'' p]))
       \<and> (\<forall>err. r = Inl err \<longrightarrow> files w' p \<noteq> None \<and> A_Remove p True \<notin> set (fresh w w'))
       \<and> (\<forall>q. q \<noteq> p \<longrightarrow> (files w' q = None) = (files w q = None))
       \<and> (files w' p = None \<or> (\<exists>q b. A_Remove q b \<in> set (fresh w w')) \<longrightarrow>
            (\<exists>rel ent w3.
               filepath_Rel rootProfileDir p = Inr rel \<and> 2 \<le> length (split_on sep rel) \<and>
               files w p = Some ent \<and> \<not> stat_fails e p \<and> size_of e ent \<noteq> 0 \<and>
               Upload e (did [A_Log ''Uploading file: %s'' p] (did [A_Stat p] w)) p
                      (hd (split_on sep rel)) = (Inr (), w3) \<and>
               A_CloseWriter (hd (split_on sep rel) @ [sep] @ filepath_Base p) True
                 \<in> set (fresh (did [A_Log ''Uploading file: %s'' p] (did [A_Stat p] w)) w3) \<and>
               trace w' = trace w3 @
                 (if remove_fails e
                  then [A_Log ''Upload successful. Deleting local file: %s'' p, A_Remove p False]
                  else [A_Log ''Upload successful. Deleting local file: %s'' p, A_Remove p True,
                        A_Log ''Successfully processed and deleted: %s'' p]) \<and>
               files w' = (if remove_fails e then files w3 else (files w3)(p := None))))
       \<and> (\<forall>rel. filepath_Rel rootProfileDir p = Inr rel \<longrightarrow>
              fst (Upload e (did [A_Log ''Uploading file: %s'' p] (did [A_Stat p] w)) p
                     (hd (split_on sep rel))) \<noteq> Inr () \<longrightarrow>
              files w' p \<noteq> None \<and> (\<forall>q b. A_Remove q b \<notin> set (fresh w w')))"
    (is "?A \<and> ?B \<and> ?C \<and> ?D \<and> ?E")
proof -
  obtain ent where ent: "files w p = Some ent" using assms(2) by auto
  have D: ?D and old: "?A \<and> ?B \<and> ?C"
  proof (atomize (full), cases "filepath_Rel rootProfileDir p")
    case (Inl err)
    with assms show "?D \<and> ?A \<and> ?B \<and> ?C" by (auto simp: processFile_def fresh_def)
  next
    case (Inr rel)
    show "?D \<and> ?A \<and> ?B \<and> ?C"
    proof (cases "length (split_on sep rel) < 2")
      case True
      with Inr assms show ?thesis by (auto simp: processFile_def fresh_def)
    next
      case False
      let ?pod = "hd (split_on sep rel)"
      let ?w2 = "did [A_Log ''Uploading file: %s'' p] (did [A_Stat p] w)"
      obtain ru w3 where up: "Upload e ?w2 p ?pod = (ru, w3)" by (cases "Upload e ?w2 p ?pod")
      from Upload_effects(1) [OF up] obtain new where
        new: "trace w3 = trace ?w2 @ new" "\<forall>q b. A_Remove q b \<notin> set new"
             "ru = Inr () \<longrightarrow> A_CloseWriter (?pod @ [sep] @ filepath_Base p) True \<in> set new"
        by blast
      have fr3: "fresh ?w2 w3 = new"
        by (simp add: fresh_def new(1))
      have dom3: "\<And>q. (files w3 q = None) = (files w q = None)"
        using Upload_effects(2) [OF up] by simp
      have ex3: "\<exists>y. files w3 p = Some y"
        using dom3 [of p] ent by auto
      show ?thesis
      proof (cases "stat_fails e p \<or> size_of e ent = 0")
        case True
        with Inr False ent assms show ?thesis
          by (auto simp: processFile_def fresh_def Let_def split: if_splits)
      next
        case nofail: False
        show ?thesis
        proof (cases ru)
          case (Inl uerr)
          with nofail Inr False ent assms up new dom3 ex3 show ?thesis
            by (auto simp: processFile_def fresh_def Let_def)
        next
          case ok: (Inr u)
          then have ok': "ru = Inr ()" by simp
          have cl3: "A_CloseWriter (?pod @ [sep] @ filepath_Base p) True \<in> set (fresh ?w2 w3)"
            using new(3) ok' fr3 by simp
          show ?thesis
          proof (cases "remove_fails e")
            case True
            have r: "r = Inl (E_Delete p)" and
              w': "w' = did [A_Remove p False]
                          (did [A_Log ''Upload successful. Deleting local file: %s'' p] w3)"
              using True ok nofail Inr False ent assms up
              by (auto simp: processFile_def Let_def os_Remove_def)
            have "?D"
              using Inr False ent nofail up ok' cl3 True
              by (auto simp: w')
            moreover have "?A \<and> ?B \<and> ?C"
              using ent ex3 dom3 new by (auto simp: r w' fresh_def)
            ultimately show ?thesis by blast
          next
            case rm: False
            have r: "r = Inr ()" and
              w': "w' = did [A_Log ''Successfully processed and deleted: %s'' p]
                       ((did [A_Remove p True]
                          (did [A_Log ''Upload successful. Deleting local file: %s'' p] w3))
                         \<lparr>files := (files w3)(p := None)\<rparr>)"
              using rm ok nofail Inr False ent assms up dom3 ex3
              by (auto simp: processFile_def Let_def os_Remove_def)
            have fr: "fresh w w' = ([A_Stat p, A_Log ''Uploading file: %s'' p] @ new)
                        @ [A_Log ''Upload successful. Deleting local file: %s'' p,
                           A_Remove p True,
                           A_Log ''Successfully processed and deleted: %s'' p]"
              by (simp add: w' fresh_def new(1) did_def)
            have cl: "A_CloseWriter (?pod @ [sep] @ filepath_Base p) True
                        \<in> set ([A_Stat p, A_Log ''Uploading file: %s'' p] @ new)"
              using new(3) ok by simp
            have "\<exists>pod w2 w3 pre. Upload e w2 p pod = (Inr (), w3) \<and>
                 A_CloseWriter (pod @ [sep] @ filepath_Base p) True \<in> set pre \<and>
                 fresh w w' = pre @ [A_Log ''Upload successful. Deleting local file: %s'' p,
                                     A_Remove p True,
                                     A_Log ''Successfully processed and deleted: %s'' p]"
              using up ok fr cl by (metis (full_types) old.unit.exhaust)
            moreover have "?C"
              by (simp add: w' dom3 did_def)
            moreover have "?D"
              using Inr False ent nofail up ok' cl3 rm
              by (auto simp: w' did_def)
            ultimately show ?thesis using r by simp
          qed
        qed
      qed
    qed
  qed
  have E: ?E
  proof (intro allI impI)
    fix rel
    assume rel: "filepath_Rel rootProfileDir p = Inr rel"
      and bad: "fst (Upload e (did [A_Log ''Uploading file: %s'' p] (did [A_Stat p] w)) p
                       (hd (split_on sep rel))) \<noteq> Inr ()"
    show "files w' p \<noteq> None \<and> (\<forall>q b. A_Remove q b \<notin> set (fresh w w'))"
    proof (rule ccontr)
      assume "\<not> (files w' p \<noteq> None \<and> (\<forall>q b. A_Remove q b \<notin> set (fresh w w')))"
      then have "files w' p = None \<or> (\<exists>q b. A_Remove q b \<in> set (fresh w w'))"
        by blast
      with D rel obtain w3 where
        "Upload e (did [A_Log ''Uploading file: %s'' p] (did [A_Stat p] w)) p
           (hd (split_on sep rel)) = (Inr (), w3)"
        by auto
      with bad show False by simp
    qed
  qed
  from old D E show ?thesis by blast
qed

lemmas run1_eval =
  processFile_def rel_run1 parts_run1 Let_def Upload_def stream_and_close_def files_sleep
  env_ok_def size_of_def grow_def os_Remove_def sep_def

theorem processFile_deletes_only_after_upload_success_witness:
  "files (world_of [run1 \<mapsto> RegFile ''JFR'']) run1 \<noteq> None
   \<and> fst (processFile (env_ok\<lparr>close_fails := True\<rparr>) (world_of [run1 \<mapsto> RegFile ''JFR'']) run1)
       = Inl (E_UploadFailed E_Finalize)
   \<and> files (snd (processFile (env_ok\<lparr>close_fails := True\<rparr>)
                   (world_of [run1 \<mapsto> RegFile ''JFR'']) run1)) run1 \<noteq> None
   \<and> files (snd (processFile env_ok (world_of [run1 \<mapsto> RegFile ''JFR'']) run1)) run1 = None
   \<and> fst (processFile env_ok (world_of [run1 \<mapsto> RegFile ''JFR'']) run1) = Inr ()
   \<and> fst (Upload env_ok
            (did [A_Log ''Uploading file: %s'' run1]
               (did [A_Stat run1] (world_of [run1 \<mapsto> RegFile ''JFR''])))
            run1 ''pod-7'') = Inr ()"
proof -
  let ?w = "world_of [run1 \<mapsto> RegFile ''JFR'']"
  let ?x = "processFile (env_ok\<lparr>close_fails := True\<rparr>) ?w run1"
  let ?y = "processFile env_ok ?w run1"
  have prx: "?x = (fst ?x, snd ?x)" and pry: "?y = (fst ?y, snd ?y)"
    by simp_all
  have there: "files ?w run1 \<noteq> None"
    by simp
  have failed: "fst ?x = Inl (E_UploadFailed E_Finalize)"
    by (simp add: run1_eval)
  have removed: "files (snd ?y) run1 = None"
    by (simp add: run1_eval)
  note bad = processFile_deletes_only_after_upload_success [OF prx there]
  note good = processFile_deletes_only_after_upload_success [OF pry there]
  from bad failed have kept: "files (snd ?x) run1 \<noteq> None"
    by simp
  from good removed have ok: "fst ?y = Inr ()"
    by simp
  from good removed obtain rel w3 where
      rel: "filepath_Rel rootProfileDir run1 = Inr rel" and
      run: "Upload env_ok (did [A_Log ''Uploading file: %s'' run1] (did [A_Stat run1] ?w)) run1
              (hd (split_on sep rel)) = (Inr (), w3)"
    by auto
  from rel have "rel = ''pod-7/run1.jfr''"
    by (simp add: rel_run1)
  then have "hd (split_on sep rel) = ''pod-7''"
    by (simp add: sep_def)
  with run have up: "fst (Upload env_ok (did [A_Log ''Uploading file: %s'' run1]
                        (did [A_Stat run1] ?w)) run1 ''pod-7'') = Inr ()"
    by simp
  from there failed kept removed ok up show ?thesis
    by simp
qed

text \<open>
  Claim C9. When processFile uploads a file at \<open>root/sourceID/.../filename\<close>, the remote
  objects after the call are the ones before it with the object at \<open>sourceID/filename\<close>
  set to the binary content type and the bytes the file had when the size check
  passed: the key is the first element under the root joined with the base name, and
  an object already stored under that key is replaced.
\<close>

theorem uploaded_object_path_and_type:
  assumes "\<forall>x\<in>set segs. plain_elem x" and "2 \<le> length segs"
    and "processFile e w (under_root segs) = (Inr (), w')"
    and "files w (under_root segs) = Some ent" and "size_of e ent \<noteq> 0"
  shows "\<exists>c. files (sleep e 2 w) (under_root segs) = Some (RegFile c) \<and>
             objects w' = (objects w)(hd segs @ [sep] @ last segs \<mapsto> (octet_stream, c)) \<and>
             objects w' (hd segs @ [sep] @ last segs) = Some (''application/octet-stream'', c)"
proof -
  have ne: "segs \<noteq> []" using assms(2) by auto
  show ?thesis
    using assms ne
    by (auto simp: processFile_def filepath_Rel_under_root parts_under_root
                   filepath_Base_under_root Upload_def stream_and_close_def Let_def
                   files_sleep os_Remove_def octet_stream_def
             split: if_splits option.splits entry.splits prod.splits sum.splits bool.splits)
qed

theorem uploaded_object_path_and_type_witness:
  "processFile env_ok ((world_of [run1 \<mapsto> RegFile ''JFR''])
       \<lparr>objects := [''pod-7/run1.jfr'' \<mapsto> (''text/plain'', ''old'')]\<rparr>) run1
     = (Inr (), snd (processFile env_ok ((world_of [run1 \<mapsto> RegFile ''JFR''])
       \<lparr>objects := [''pod-7/run1.jfr'' \<mapsto> (''text/plain'', ''old'')]\<rparr>) run1))
   \<and> objects (snd (processFile env_ok ((world_of [run1 \<mapsto> RegFile ''JFR''])
       \<lparr>objects := [''pod-7/run1.jfr'' \<mapsto> (''text/plain'', ''old'')]\<rparr>) run1))
        ''pod-7/run1.jfr'' = Some (''application/octet-stream'', ''JFR'')"
proof -
  let ?w = "(world_of [run1 \<mapsto> RegFile ''JFR''])
              \<lparr>objects := [''pod-7/run1.jfr'' \<mapsto> (''text/plain'', ''old'')]\<rparr>"
  let ?x = "processFile env_ok ?w (under_root [''pod-7'', ''run1.jfr''])"
  have long: "2 \<le> length [''pod-7'', ''run1.jfr'']"
    by simp
  have ok: "fst ?x = Inr ()"
    by (simp add: under_root_run1 run1_eval)
  then have pr: "?x = (Inr (), snd ?x)"
    by (metis prod.collapse)
  have there: "files ?w (under_root [''pod-7'', ''run1.jfr'']) = Some (RegFile ''JFR'')"
    by (simp add: under_root_run1)
  have big: "size_of env_ok (RegFile ''JFR'') \<noteq> 0"
    by (simp add: size_of_def)
  have slept: "files (sleep env_ok 2 ?w) run1 = Some (RegFile ''JFR'')"
    by (simp add: files_sleep grow_def env_ok_def)
  from uploaded_object_path_and_type [OF plain_run1 long pr there big] slept pr
  show ?thesis
    by (auto simp: under_root_run1 sep_def)
qed

text \<open>
  Claim C10. A file three or more elements below the watched root is no structural
  error. It is processed like any other: in an environment without faults, a non-empty
  file whose size stays the same over the uploader's two seconds is uploaded and
  removed. The key of its remote object is the first element joined with the base
  name; the elements in between do not occur in it, so files with one base name in
  different subdirectories of one source directory are written to one remote object.
\<close>

theorem nested_path_is_flattened:
  assumes "plain_elem s" and "\<forall>x\<in>set mid. plain_elem x" and "mid \<noteq> []" and "plain_elem b"
    and "processFile e w (under_root (s # mid @ [b])) = (r, w')"
  shows "r \<noteq> Inl (E_InvalidPathStructure (under_root (s # mid @ [b])))
       \<and> (\<forall>c. files w (under_root (s # mid @ [b])) = Some (RegFile c) \<and> c \<noteq> [] \<and>
              fault_free e (under_root (s # mid @ [b])) \<and>
              length (producer e (clock w) 2 (under_root (s # mid @ [b])) c) = length c
              \<longrightarrow> r = Inr () \<and> files w' (under_root (s # mid @ [b])) = None \<and>
                  objects w' = (objects w)(s @ [sep] @ b \<mapsto>
                     (octet_stream, producer e (clock w) 2 (under_root (s # mid @ [b])) c)))"
proof -
  let ?segs = "s # mid @ [b]"
  have plain: "\<forall>x\<in>set ?segs. plain_elem x"
    using assms(1,2,4) by simp
  have rel: "filepath_Rel rootProfileDir (under_root ?segs) = Inr (join_on sep ?segs)"
    using filepath_Rel_under_root [OF plain] by simp
  have parts: "split_on sep (join_on sep ?segs) = ?segs"
    using parts_under_root [OF plain] by simp
  have base: "filepath_Base (under_root ?segs) = b"
    using filepath_Base_under_root [OF plain] by simp
  show ?thesis
    using assms(5)
    by (auto simp: processFile_def rel parts base Upload_def stream_and_close_def Let_def
                   files_sleep os_Remove_def fault_free_def size_of_def grow_def
             split: if_splits option.splits entry.splits prod.splits sum.splits bool.splits)
qed

lemma under_root_deep_a: "under_root [''pod-7'', ''a'', ''run1.jfr''] = deep_a"
  and under_root_deep_b: "under_root [''pod-7'', ''b'', ''run1.jfr''] = deep_b"
  by (simp_all add: under_root_def rootProfileDir_def sep_def deep_a_def deep_b_def)

lemma plain_deep: "plain_elem ''pod-7''" "\<forall>x\<in>set [''a'']. plain_elem x"
    "\<forall>x\<in>set [''b'']. plain_elem x" "plain_elem ''run1.jfr''"
  by (simp_all add: plain_elem_def sep_def)

lemma fault_free_env_ok: "fault_free env_ok p"
  by (simp add: fault_free_def env_ok_def)

theorem nested_path_is_flattened_witness:
  "fst (processFile env_ok (world_of [deep_a \<mapsto> RegFile ''AAA'', deep_b \<mapsto> RegFile ''BBB''])
          deep_a) = Inr ()
   \<and> objects (snd (processFile env_ok
                  (world_of [deep_a \<mapsto> RegFile ''AAA'', deep_b \<mapsto> RegFile ''BBB'']) deep_a))
        ''pod-7/run1.jfr'' = Some (octet_stream, ''AAA'')
   \<and> fst (processFile env_ok (world_of [deep_b \<mapsto> RegFile ''BBB'']) deep_b) = Inr ()
   \<and> objects (snd (processFile env_ok (world_of [deep_b \<mapsto> RegFile ''BBB'']) deep_b))
        ''pod-7/run1.jfr'' = Some (octet_stream, ''BBB'')"
proof -
  let ?wa = "world_of [deep_a \<mapsto> RegFile ''AAA'', deep_b \<mapsto> RegFile ''BBB'']"
  let ?wb = "world_of [deep_b \<mapsto> RegFile ''BBB'']"
  let ?pa = "under_root (''pod-7'' # [''a''] @ [''run1.jfr''])"
  let ?pb = "under_root (''pod-7'' # [''b''] @ [''run1.jfr''])"
  let ?xa = "processFile env_ok ?wa ?pa"
  let ?xb = "processFile env_ok ?wb ?pb"
  have pra: "?xa = (fst ?xa, snd ?xa)" and prb: "?xb = (fst ?xb, snd ?xb)"
    by simp_all
  have ne: "[''a''] \<noteq> []" "[''b''] \<noteq> []"
    by simp_all
  have differ: "deep_a \<noteq> deep_b"
    by (simp add: deep_a_def deep_b_def)
  have ha: "files ?wa ?pa = Some (RegFile ''AAA'') \<and> ''AAA'' \<noteq> [] \<and> fault_free env_ok ?pa \<and>
            length (producer env_ok (clock ?wa) 2 ?pa ''AAA'') = length ''AAA''"
    using differ by (simp add: under_root_deep_a fault_free_env_ok) (simp add: env_ok_def)
  have hb: "files ?wb ?pb = Some (RegFile ''BBB'') \<and> ''BBB'' \<noteq> [] \<and> fault_free env_ok ?pb \<and>
            length (producer env_ok (clock ?wb) 2 ?pb ''BBB'') = length ''BBB''"
    by (simp add: under_root_deep_b fault_free_env_ok) (simp add: env_ok_def)
  have ida: "producer env_ok (clock ?wa) 2 ?pa ''AAA'' = ''AAA''"
    and idb: "producer env_ok (clock ?wb) 2 ?pb ''BBB'' = ''BBB''"
    by (simp_all add: env_ok_def)
  note a = nested_path_is_flattened [OF plain_deep(1) plain_deep(2) ne(1) plain_deep(4) pra,
               THEN conjunct2, rule_format, OF ha, unfolded ida]
  note b = nested_path_is_flattened [OF plain_deep(1) plain_deep(3) ne(2) plain_deep(4) prb,
               THEN conjunct2, rule_format, OF hb, unfolded idb]
  from a b show ?thesis
    by (simp add: under_root_deep_a under_root_deep_b sep_def)
qed





section \<open>Notifications\<close>



text \<open>
  Claim C3, as the code has it. Subscriptions come from the walk at startup only:
  when watchDirectoryRecursive succeeds, the subscription set has grown by exactly the
  directories of the tree. Handling a notification never changes the subscription set,
  whatever the notification is about, so a directory created later is not subscribed.
\<close>

lemma Upload_watched: "watched (snd (Upload e w p pod)) = watched w"
  using Upload_effects(3) [of e w p pod "fst (Upload e w p pod)" "snd (Upload e w p pod)"]
  by simp

lemma processFile_watched: "watched (snd (processFile e w p)) = watched w"
proof (cases "filepath_Rel rootProfileDir p")
  case (Inl err)
  then show ?thesis by (simp add: processFile_def)
next
  case (Inr rel)
  let ?w2 = "did [A_Log ''Uploading file: %s'' p] (did [A_Stat p] w)"
  let ?u = "Upload e ?w2 p (hd (split_on sep rel))"
  have u: "watched (snd ?u) = watched w"
    by (simp add: Upload_watched)
  obtain ru w3 where up: "?u = (ru, w3)" by (cases ?u)
  with u have w3: "watched w3 = watched w" by simp
  show ?thesis
    using Inr up w3
    by (simp add: processFile_def Let_def os_Remove_def
             split: sum.splits option.splits)
qed

lemma handleFileEvent_watched: "watched (handleFileEvent e w ev) = watched w"
proof -
  let ?w1 = "sleep e 5 (did [A_Log ''Detected new/modified file: %s'' (Name ev)] w)"
  let ?x = "processFile e ?w1 (Name ev)"
  have "watched (snd ?x) = watched w"
    by (simp add: processFile_watched)
  moreover obtain r w2 where "?x = (r, w2)" by (cases ?x)
  ultimately show ?thesis
    by (simp add: handleFileEvent_def Let_def split: sum.splits)
qed

lemma watch_visits_watched:
  "watch_visits e vs w = (Inr (), w') \<Longrightarrow>
   watched w' = watched w \<union> {p. (p, True, False) \<in> set vs}"
proof (induction e vs w rule: watch_visits.induct)
  case (1 e w)
  then show ?case by simp
next
  case (2 e p isDir err vs w)
  show ?case
  proof (cases err)
    case True
    with "2.prems" show ?thesis by simp
  next
    case noerr: False
    show ?thesis
    proof (cases isDir)
      case False
      with noerr "2.prems" have "watch_visits e vs w = (Inr (), w')" by simp
      from "2.IH"(2) [OF noerr False this] noerr False show ?thesis by auto
    next
      case True
      let ?w1 = "did [A_Log ''Watching directory: %s'' p] w"
      let ?w2 = "(did [A_WatchAdd p True] ?w1)\<lparr>watched := insert p (watched ?w1)\<rparr>"
      have nf: "\<not> add_fails e p"
        using "2.prems" noerr True by (auto simp: Let_def split: if_splits)
      with noerr True "2.prems" have run: "watch_visits e vs ?w2 = (Inr (), w')"
        by (simp add: Let_def)
      from "2.IH"(1) [OF noerr True refl nf run] noerr True show ?thesis
        by (auto simp: did_def)
    qed
  qed
qed

theorem subscriptions_only_from_initial_walk:
  "watched (handleFileEvent e w ev) = watched w
   \<and> (watchDirectoryRecursive e w root tree = (Inr (), w') \<longrightarrow>
        watched w' = watched w \<union> {p. (p, True, False) \<in> set (walk root tree)})"
  by (simp add: handleFileEvent_watched watchDirectoryRecursive_def watch_visits_watched)

theorem subscriptions_only_from_initial_walk_witness:
  "watchDirectoryRecursive env_ok (world_of Map.empty) rootProfileDir
     (DirN [(''pod-7'', DirN [(''run1.jfr'', FileN)])])
     = (Inr (), snd (watchDirectoryRecursive env_ok (world_of Map.empty) rootProfileDir
                       (DirN [(''pod-7'', DirN [(''run1.jfr'', FileN)])])))
   \<and> watched (snd (watchDirectoryRecursive env_ok (world_of Map.empty) rootProfileDir
                     (DirN [(''pod-7'', DirN [(''run1.jfr'', FileN)])])))
       = {''/tmp/jfr'', ''/tmp/jfr/pod-7''}"
proof -
  let ?t = "DirN [(''pod-7'', DirN [(''run1.jfr'', FileN)])]"
  let ?x = "watchDirectoryRecursive env_ok (world_of Map.empty) rootProfileDir ?t"
  have ok: "fst ?x = Inr ()"
    by (simp add: watchDirectoryRecursive_def env_ok_def Let_def)
  then have pr: "?x = (Inr (), snd ?x)"
    by (metis prod.collapse)
  have dirs: "{p. (p, True, False) \<in> set (walk rootProfileDir ?t)}
                = {''/tmp/jfr'', ''/tmp/jfr/pod-7''}"
    by (auto simp: rootProfileDir_def sep_def)
  note walk = subscriptions_only_from_initial_walk
         [of env_ok "world_of Map.empty" "\<lparr>Name = [], Op = 0\<rparr>" rootProfileDir ?t "snd ?x",
          THEN conjunct2, rule_format, OF pr]
  from walk dirs pr show ?thesis
    by simp
qed

theorem created_directory_is_not_subscribed:
  "files ((world_of [pod9 \<mapsto> Directory])\<lparr>watched := {rootProfileDir}\<rparr>) pod9 = Some Directory
   \<and> op_Create AND op_Create = op_Create
   \<and> pod9 \<notin> watched (handleFileEvent env_ok
                         ((world_of [pod9 \<mapsto> Directory])\<lparr>watched := {rootProfileDir}\<rparr>)
                         \<lparr>Name = pod9, Op = op_Create\<rparr>)"
  by (simp add: handleFileEvent_def HasSuffix_def pod9_def rootProfileDir_def)

end
